theory Spec2Isabelle
  imports Complex_Main "HOL-Library.Word"
begin

section \<open>JavaScript strings\<close>

text \<open>
  A JavaScript string is a sequence of UTF-16 code units. The regular expressions of
  \<^verbatim>\<open>src/app/page.tsx\<close> carry no \<^verbatim>\<open>u\<close> flag, so they read the subject one code unit at a
  time. String literals of the source are written through \<open>js\<close>, which maps each
  character of a literal to its code unit.
\<close>

type_synonym jschar = "16 word"
type_synonym jsstring = "jschar list"

definition cu :: "char \<Rightarrow> jschar" where
  "cu c = of_char c"

definition js :: "string \<Rightarrow> jsstring" where
  "js s = map cu s"

section \<open>The regular expressions of the format table\<close>

text \<open>
  Only the constructs that occur in \<^verbatim>\<open>BARCODE_FORMATS\<close> are modelled: the anchors
  \<^verbatim>\<open>^\<close> and \<^verbatim>\<open>$\<close> (no \<^verbatim>\<open>m\<close> flag: start and end of the whole input), a character
  class of ranges and single characters, and the quantifiers \<^verbatim>\<open>{n}\<close> and \<^verbatim>\<open>+\<close> on a
  class. A pattern is the sequence of its terms.
\<close>

datatype rx_item = Range jschar jschar | Single jschar

type_synonym rx_class = "rx_item list"

fun in_item :: "rx_item \<Rightarrow> jschar \<Rightarrow> bool" where
  "in_item (Range lo hi) c = (lo \<le> c \<and> c \<le> hi)"
| "in_item (Single x) c = (c = x)"

definition in_class :: "rx_class \<Rightarrow> jschar \<Rightarrow> bool" where
  "in_class cls c = list_ex (\<lambda>i. in_item i c) cls"

datatype rx = Bol | Eol | Rep rx_class nat | Plus rx_class

text \<open>
  \<open>rx_match p at0 s\<close>: the pattern \<open>p\<close> matches some prefix of the remaining input \<open>s\<close>,
  where \<open>at0\<close> says whether the current position is the start of the input. The
  two alternatives of \<^verbatim>\<open>+\<close> are the backtracking choices of the matcher (one more
  repetition, or go on with the rest of the pattern).
\<close>

fun rx_match :: "rx list \<Rightarrow> bool \<Rightarrow> jsstring \<Rightarrow> bool" where
  "rx_match [] at0 s = True"
| "rx_match (Bol # p) at0 s = (at0 \<and> rx_match p at0 s)"
| "rx_match (Eol # p) at0 s = (s = [] \<and> rx_match p at0 s)"
| "rx_match (Rep cls 0 # p) at0 s = rx_match p at0 s"
| "rx_match (Rep cls (Suc n) # p) at0 [] = False"
| "rx_match (Rep cls (Suc n) # p) at0 (c # s) =
     (in_class cls c \<and> rx_match (Rep cls n # p) False s)"
| "rx_match (Plus cls # p) at0 [] = False"
| "rx_match (Plus cls # p) at0 (c # s) =
     (in_class cls c \<and> (rx_match (Plus cls # p) False s \<or> rx_match p False s))"

text \<open>
  \<^verbatim>\<open>RegExp.prototype.test\<close> for a pattern without the \<^verbatim>\<open>g\<close> and \<^verbatim>\<open>y\<close> flags: the
  match is tried at every start index from 0 to the length of the input.
\<close>

definition rx_test :: "rx list \<Rightarrow> jsstring \<Rightarrow> bool" where
  "rx_test p s = list_ex (\<lambda>i. rx_match p (i = 0) (drop i s)) [0..<Suc (length s)]"

text \<open>\<^verbatim>\<open>\d\<close> and \<^verbatim>\<open>[0-9A-Z\-. $\/+%]\<close>.\<close>

definition rx_digit :: rx_class where
  "rx_digit = [Range (cu CHR ''0'') (cu CHR ''9'')]"

definition rx_code39 :: rx_class where
  "rx_code39 = [Range (cu CHR ''0'') (cu CHR ''9''), Range (cu CHR ''A'') (cu CHR ''Z''),
     Single (cu CHR ''-''), Single (cu CHR ''.''), Single (cu CHR '' ''), Single (cu CHR ''$''),
     Single (cu CHR ''/''), Single (cu CHR ''+''), Single (cu CHR ''%'')]"

section \<open>The format table and the validator\<close>

record format_info =
  fvalue :: jsstring
  flabel :: jsstring
  validation :: "jsstring \<Rightarrow> bool"

text \<open>
  \<^verbatim>\<open>BARCODE_FORMATS\<close> (lines 27 to 33). The table of the second variant of the component
  (lines 621 to 627) is the same text, so one constant serves both.
\<close>

definition BARCODE_FORMATS :: "format_info list" where
  "BARCODE_FORMATS =
    [\<lparr>fvalue = js ''CODE128'', flabel = js ''Code 128'', validation = (\<lambda>_. True)\<rparr>,
     \<lparr>fvalue = js ''CODE39'', flabel = js ''Code 39'',
        validation = (\<lambda>text. rx_test [Bol, Plus rx_code39, Eol] text)\<rparr>,
     \<lparr>fvalue = js ''EAN13'', flabel = js ''EAN-13'',
        validation = (\<lambda>text. rx_test [Bol, Rep rx_digit 13, Eol] text)\<rparr>,
     \<lparr>fvalue = js ''EAN8'', flabel = js ''EAN-8'',
        validation = (\<lambda>text. rx_test [Bol, Rep rx_digit 8, Eol] text)\<rparr>,
     \<lparr>fvalue = js ''UPC'', flabel = js ''UPC-A'',
        validation = (\<lambda>text. rx_test [Bol, Rep rx_digit 12, Eol] text)\<rparr>]"

text \<open>
  \<^verbatim>\<open>validateBarcode\<close> of the first variant (lines 63 to 68). \<^verbatim>\<open>!text\<close> holds of a
  string exactly when it is empty; \<^verbatim>\<open>Array.prototype.find\<close> returns the first entry
  that satisfies the predicate, or \<^verbatim>\<open>undefined\<close>.
\<close>

definition validateBarcode :: "jsstring \<Rightarrow> jsstring \<Rightarrow> bool" where
  "validateBarcode text format =
     (if text = [] then False
      else case find (\<lambda>f. fvalue f = format) BARCODE_FORMATS of
             None \<Rightarrow> False
           | Some formatInfo \<Rightarrow> validation formatInfo text)"

text \<open>
  \<^verbatim>\<open>validateBarcode\<close> of the second variant (lines 657 to 661), which has no test of
  the text before the lookup.
\<close>

definition validateBarcode2 :: "jsstring \<Rightarrow> jsstring \<Rightarrow> bool" where
  "validateBarcode2 text format =
     (case find (\<lambda>f. fvalue f = format) BARCODE_FORMATS of
        None \<Rightarrow> False
      | Some formatInfo \<Rightarrow> validation formatInfo text)"

text \<open>The vocabulary of the specification: decimal digits and the Code 39 alphabet.\<close>

definition decimal_digit :: "jschar \<Rightarrow> bool" where
  "decimal_digit c = (0x30 \<le> c \<and> c \<le> 0x39)"

definition upper_letter :: "jschar \<Rightarrow> bool" where
  "upper_letter c = (0x41 \<le> c \<and> c \<le> 0x5A)"

definition code39_char :: "jschar \<Rightarrow> bool" where
  "code39_char c = (decimal_digit c \<or> upper_letter c \<or> c \<in> set (js '' -.$/+%''))"

definition supported_formats :: "jsstring list" where
  "supported_formats = [js ''CODE128'', js ''CODE39'', js ''EAN13'', js ''EAN8'', js ''UPC'']"

section \<open>Settings, rows and the calls to the external collaborators\<close>

text \<open>
  JavaScript numbers are kept abstract: the model uses a type \<open>'n\<close> with a
  multiplication, a division and numerals, and no proof uses a law of them. What the
  theorems say about a number is which expression the program computes.

  \<^verbatim>\<open>BarcodeSettings\<close> and \<^verbatim>\<open>ExportSettings\<close> (lines 8 to 25). Both interfaces have a
  field \<^verbatim>\<open>format\<close>; the one of \<^verbatim>\<open>ExportSettings\<close> is \<open>eformat\<close> here. The source field
  \<^verbatim>\<open>text\<close> is \<open>text'\<close> in the settings and \<open>btext\<close> in a batch row. The numeric
  fields are optional in the interface and read with \<^verbatim>\<open>!\<close>; the initial state sets
  them and every setter spreads the old settings, so they are always numbers.
\<close>

record 'n BarcodeSettings =
  format :: jsstring
  width :: 'n
  height :: 'n
  displayValue :: bool
  text' :: "jsstring option"
  font :: jsstring
  fontSize :: 'n
  backgroundColor :: jsstring
  lineColor :: jsstring

datatype export_format = PNG | SVG | JPG

fun format_name :: "export_format \<Rightarrow> jsstring" where
  "format_name PNG = js ''png''"
| "format_name SVG = js ''svg''"
| "format_name JPG = js ''jpg''"

record 'n ExportSettings =
  eformat :: export_format
  resolution :: 'n
  prefix :: jsstring
  suffix :: jsstring

text \<open>An element of \<^verbatim>\<open>batchData\<close>: \<^verbatim>\<open>{barcode: string, text?: string}\<close>.\<close>

record BatchRow =
  barcode :: jsstring
  btext :: "jsstring option"

text \<open>The options object handed to \<^verbatim>\<open>JsBarcode\<close>.\<close>

record 'n RenderOptions =
  o_format :: jsstring
  o_width :: 'n
  o_height :: 'n
  o_displayValue :: bool
  o_text :: "jsstring option"
  o_font :: jsstring
  o_fontSize :: 'n
  o_background :: jsstring
  o_lineColor :: jsstring

text \<open>
  The surfaces the program draws on or serialises: the canvas that \<^verbatim>\<open>generateBatch\<close>
  creates, the SVG element it creates for a row, the hidden canvas of \<^verbatim>\<open>canvasRef\<close>
  and the preview element of \<^verbatim>\<open>previewRef\<close>.
\<close>

datatype surface = BatchCanvas | RowSvg | HiddenCanvas | PreviewSvg

text \<open>
  What a run does, in program order. \<open>ToBlob t mime name\<close> is the call
  \<^verbatim>\<open>canvas.toBlob(callback, mime, 0.9)\<close> whose callback saves a non-null blob under
  \<open>name\<close>; \<open>SaveAs t mime name\<close> is \<^verbatim>\<open>saveAs\<close> on the serialisation of \<open>t\<close>; \<open>Sleep\<close> is
  the awaited timer; \<open>Uncaught\<close> is an exception that leaves the handler.
\<close>

datatype 'n action =
    SetIsGenerating bool
  | CanvasSize surface 'n 'n
  | JsBarcode surface jsstring "'n RenderOptions"
  | SaveAs surface jsstring jsstring
  | ToBlob surface jsstring jsstring
  | Sleep nat
  | ConsoleWarn jsstring
  | ConsoleError jsstring
  | SetValidationError jsstring
  | Uncaught

text \<open>
  The environment: whether \<^verbatim>\<open>getContext('2d')\<close> gives a context, whether the refs
  hold an element, and on which calls the renderer throws. The renderer is the one call
  that the source expects to throw; the serialiser, \<^verbatim>\<open>toBlob\<close> and \<^verbatim>\<open>saveAs\<close> are taken
  to return.
\<close>

record 'n env =
  getContext2d :: bool
  canvasRef :: bool
  previewRef :: bool
  renderer_throws :: "surface \<Rightarrow> jsstring \<Rightarrow> 'n RenderOptions \<Rightarrow> bool"

record 'n app =
  inputText :: jsstring
  barcodeSettings :: "'n BarcodeSettings"
  exportSettings :: "'n ExportSettings"
  batchData :: "BatchRow list"
  validationError :: jsstring
  isGenerating :: bool

definition ratio_of :: "'n::{times,inverse,numeral} ExportSettings \<Rightarrow> 'n" where
  "ratio_of es = resolution es / 500"

text \<open>The two option objects of the source: as configured, and scaled by the ratio.\<close>

definition plain_options ::
  "'n BarcodeSettings \<Rightarrow> jsstring option \<Rightarrow> 'n RenderOptions" where
  "plain_options bs t =
     \<lparr>o_format = format bs, o_width = width bs, o_height = height bs,
      o_displayValue = displayValue bs, o_text = t, o_font = font bs,
      o_fontSize = fontSize bs, o_background = backgroundColor bs,
      o_lineColor = lineColor bs\<rparr>"

definition scaled_options ::
  "'n::{times,inverse,numeral} BarcodeSettings \<Rightarrow> 'n \<Rightarrow> jsstring option \<Rightarrow> 'n RenderOptions" where
  "scaled_options bs ratio t =
     \<lparr>o_format = format bs, o_width = width bs * ratio, o_height = height bs * ratio,
      o_displayValue = displayValue bs, o_text = t, o_font = font bs,
      o_fontSize = fontSize bs * ratio, o_background = backgroundColor bs,
      o_lineColor = lineColor bs\<rparr>"

section \<open>Batch generation\<close>

text \<open>
  The body of the \<^verbatim>\<open>try\<close> block for one row (lines 208 to 253). An exception of the
  renderer is caught and logged; the export and the awaited timer are skipped then.
\<close>

definition render_row ::
  "'n::{times,inverse,numeral} env \<Rightarrow> 'n BarcodeSettings \<Rightarrow> 'n ExportSettings \<Rightarrow> BatchRow
     \<Rightarrow> 'n action list" where
  "render_row e bs es item =
     (if eformat es = SVG then
        (let opts = plain_options bs (btext item) in
         JsBarcode RowSvg (barcode item) opts #
         (if renderer_throws e RowSvg (barcode item) opts
          then [ConsoleError (js ''Error generating barcode for '' @ barcode item @ js '':'')]
          else [SaveAs RowSvg (js ''image/svg+xml'')
                  (prefix es @ barcode item @ suffix es @ js ''.svg''),
                Sleep 50]))
      else
        (let opts = scaled_options bs (ratio_of es) (btext item) in
         JsBarcode BatchCanvas (barcode item) opts #
         (if renderer_throws e BatchCanvas (barcode item) opts
          then [ConsoleError (js ''Error generating barcode for '' @ barcode item @ js '':'')]
          else [ToBlob BatchCanvas (js ''image/'' @ format_name (eformat es))
                  (prefix es @ barcode item @ suffix es @ js ''.'' @ format_name (eformat es)),
                Sleep 50])))"

text \<open>The \<^verbatim>\<open>for\<close> loop (lines 200 to 254): an invalid row is logged and skipped.\<close>

fun batch_loop ::
  "'n::{times,inverse,numeral} env \<Rightarrow> 'n BarcodeSettings \<Rightarrow> 'n ExportSettings \<Rightarrow> BatchRow list
     \<Rightarrow> 'n action list" where
  "batch_loop e bs es [] = []"
| "batch_loop e bs es (item # rest) =
     (if \<not> validateBarcode (barcode item) (format bs)
      then ConsoleWarn (js ''Invalid barcode: '' @ barcode item) # batch_loop e bs es rest
      else render_row e bs es item @ batch_loop e bs es rest)"

text \<open>
  \<^verbatim>\<open>generateBatch\<close> (lines 187 to 257): what the call does, in order. It returns
  before anything when there is no row, and after \<^verbatim>\<open>setIsGenerating(true)\<close> when the
  new canvas gives no 2D context.
\<close>

definition generateBatch :: "'n::{times,inverse,numeral} env \<Rightarrow> 'n app \<Rightarrow> 'n action list" where
  "generateBatch e s =
     (if batchData s = [] then []
      else SetIsGenerating True #
        (if \<not> getContext2d e then []
         else CanvasSize BatchCanvas (400 * ratio_of (exportSettings s))
                (200 * ratio_of (exportSettings s)) #
              batch_loop e (barcodeSettings s) (exportSettings s) (batchData s) @
              [SetIsGenerating False]))"

text \<open>The effect of an action on the component state, and of a run on it.\<close>

fun apply_action :: "'n action \<Rightarrow> 'n app \<Rightarrow> 'n app" where
  "apply_action (SetIsGenerating b) s = s\<lparr>isGenerating := b\<rparr>"
| "apply_action (SetValidationError m) s = s\<lparr>validationError := m\<rparr>"
| "apply_action a s = s"

definition apply_actions :: "'n action list \<Rightarrow> 'n app \<Rightarrow> 'n app" where
  "apply_actions as s = fold apply_action as s"

text \<open>The rows a run hands to the renderer, and the files it asks to save.\<close>

fun rendered :: "'n action list \<Rightarrow> jsstring list" where
  "rendered [] = []"
| "rendered (JsBarcode t c opts # as) = c # rendered as"
| "rendered (a # as) = rendered as"


text \<open>
  \<open>exports cur as\<close> pairs every export of the run with the last renderer call
  before it (\<open>cur\<close> is the last call before the run, if any): the content, the options and
  the file name.
\<close>

fun exports ::
  "(jsstring \<times> 'n RenderOptions) option \<Rightarrow> 'n action list
     \<Rightarrow> ((jsstring \<times> 'n RenderOptions) option \<times> surface \<times> jsstring) list" where
  "exports cur [] = []"
| "exports cur (JsBarcode t c opts # as) = exports (Some (c, opts)) as"
| "exports cur (SaveAs t mime name # as) = (cur, t, name) # exports cur as"
| "exports cur (ToBlob t mime name # as) = (cur, t, name) # exports cur as"
| "exports cur (a # as) = exports cur as"

definition valid_rows :: "'n app \<Rightarrow> BatchRow list" where
  "valid_rows s = filter (\<lambda>item. validateBarcode (barcode item) (format (barcodeSettings s))) (batchData s)"

section \<open>Single download\<close>

text \<open>
  \<^verbatim>\<open>downloadSingle\<close> (lines 103 to 147). The renderer is called on the hidden canvas
  before the output format is looked at, and outside any \<^verbatim>\<open>try\<close>. The label is
  \<^verbatim>\<open>barcodeSettings.text || inputText\<close>.
\<close>

definition label_or :: "jsstring option \<Rightarrow> jsstring \<Rightarrow> jsstring" where
  "label_or t d = (case t of None \<Rightarrow> d | Some l \<Rightarrow> if l = [] then d else l)"

definition downloadSingle :: "'n::{times,inverse,numeral} env \<Rightarrow> 'n app \<Rightarrow> 'n action list" where
  "downloadSingle e s =
     (if inputText s = [] \<or> validationError s \<noteq> [] then []
      else if \<not> canvasRef e then []
      else if \<not> getContext2d e then []
      else
        (let es = exportSettings s; bs = barcodeSettings s;
             opts = scaled_options bs (ratio_of es) (Some (label_or (text' bs) (inputText s)))
         in CanvasSize HiddenCanvas (400 * ratio_of es) (200 * ratio_of es) #
            JsBarcode HiddenCanvas (inputText s) opts #
            (if renderer_throws e HiddenCanvas (inputText s) opts then [Uncaught]
             else if eformat es = SVG then
               (if previewRef e
                then [SaveAs PreviewSvg (js ''image/svg+xml'')
                        (prefix es @ inputText s @ suffix es @ js ''.svg'')]
                else [])
             else [ToBlob HiddenCanvas (js ''image/'' @ format_name (eformat es))
                     (prefix es @ inputText s @ suffix es @ js ''.'' @ format_name (eformat es))])))"


section \<open>The batch button and the runs in flight\<close>

text \<open>
  \<^verbatim>\<open>generateBatch\<close> is called from one place, the click handler of the batch button,
  whose \<^verbatim>\<open>disabled\<close> attribute is \<^verbatim>\<open>!batchData.length || isGenerating\<close> (lines 568 to
  571). No other code calls \<^verbatim>\<open>setIsGenerating\<close>.
\<close>

definition generate_disabled :: "'n app \<Rightarrow> bool" where
  "generate_disabled s = (batchData s = [] \<or> isGenerating s)"

text \<open>
  A run is suspended at each awaited timer. \<open>split_sleep\<close> cuts a run after its first
  \<open>Sleep\<close>: the part that executes now, and what is left for later, if the run is
  suspended.
\<close>

fun split_sleep :: "'n action list \<Rightarrow> 'n action list \<times> 'n action list option" where
  "split_sleep [] = ([], None)"
| "split_sleep (Sleep n # as) = ([Sleep n], Some as)"
| "split_sleep (a # as) = (case split_sleep as of (now, later) \<Rightarrow> (a # now, later))"

text \<open>
  The events of the page: a click on the enabled batch button, which runs
  \<^verbatim>\<open>generateBatch\<close> with the state of that moment up to its first suspension; the
  timer of a suspended run, which resumes it up to the next one; and any other
  handler, which sets state other than \<^verbatim>\<open>isGenerating\<close> (typing, the settings, an
  upload). A configuration is the component state with the suspended runs.
\<close>

datatype 'n event = Click "'n env" | Resume nat | Other "'n app"

type_synonym 'n config = "'n app \<times> 'n action list list"

fun fire :: "'n::{times,inverse,numeral} event \<Rightarrow> 'n config \<Rightarrow> 'n config option" where
  "fire (Click e) (s, runs) =
     (if generate_disabled s then None
      else case split_sleep (generateBatch e s) of
        (now, None) \<Rightarrow> Some (apply_actions now s, runs)
      | (now, Some later) \<Rightarrow> Some (apply_actions now s, later # runs))"
| "fire (Resume i) (s, runs) =
     (if i < length runs then
        (case split_sleep (runs ! i) of
           (now, None) \<Rightarrow> Some (apply_actions now s, take i runs @ drop (Suc i) runs)
         | (now, Some later) \<Rightarrow> Some (apply_actions now s, runs[i := later]))
      else None)"
| "fire (Other s') (s, runs) =
     (if isGenerating s' = isGenerating s then Some (s', runs) else None)"

fun fire_all :: "'n::{times,inverse,numeral} event list \<Rightarrow> 'n config \<Rightarrow> 'n config option" where
  "fire_all [] c = Some c"
| "fire_all (ev # evs) c = (case fire ev c of None \<Rightarrow> None | Some c' \<Rightarrow> fire_all evs c')"

text \<open>The initial state of the component (lines 36 to 57).\<close>

definition initial_app :: "'n::{times,inverse,numeral} app" where
  "initial_app =
     \<lparr>inputText = [],
      barcodeSettings = \<lparr>format = js ''CODE128'', width = 2, height = 100, displayValue = True,
        text' = None, font = js ''monospace'', fontSize = 20,
        backgroundColor = js ''#ffffff'', lineColor = js ''#000000''\<rparr>,
      exportSettings = \<lparr>eformat = PNG, resolution = 500, prefix = [], suffix = []\<rparr>,
      batchData = [], validationError = [], isGenerating = False\<rparr>"

text \<open>A run, or what is left of one, that sets \<^verbatim>\<open>isGenerating\<close> once, at its end, to false.\<close>

fun quiet :: "'n action \<Rightarrow> bool" where
  "quiet (SetIsGenerating b) = False"
| "quiet a = True"

definition run_tail :: "'n action list \<Rightarrow> bool" where
  "run_tail r = (r \<noteq> [] \<and> last r = SetIsGenerating False \<and> list_all quiet (butlast r))"

section \<open>Tabular upload\<close>

text \<open>
  The rows that \<^verbatim>\<open>Papa.parse\<close> delivers with \<^verbatim>\<open>header: true\<close> are objects from field
  name to string. A row object is the list of its own properties in the order of their
  creation; reading a property that is absent gives \<^verbatim>\<open>undefined\<close>, and an assignment
  to a property that exists keeps its place. The tokenising of the file and
  \<^verbatim>\<open>skipEmptyLines\<close> belong to the parser and are not part of the component.
\<close>

datatype jsval = Undefined | Str jsstring

type_synonym row_object = "(jsstring \<times> jsstring) list"

fun truthy :: "jsval \<Rightarrow> bool" where
  "truthy Undefined = False"
| "truthy (Str s) = (s \<noteq> [])"

text \<open>\<^verbatim>\<open>a || b\<close>.\<close>

definition or_else :: "jsval \<Rightarrow> jsval \<Rightarrow> jsval" where
  "or_else a b = (if truthy a then a else b)"

definition get_prop :: "row_object \<Rightarrow> jsstring \<Rightarrow> jsval" where
  "get_prop row k = (case map_of row k of None \<Rightarrow> Undefined | Some v \<Rightarrow> Str v)"

definition set_prop :: "row_object \<Rightarrow> jsstring \<Rightarrow> jsstring \<Rightarrow> row_object" where
  "set_prop row k v =
     (if map_of row k = None then row @ [(k, v)]
      else map (\<lambda>p. if fst p = k then (k, v) else p) row)"

text \<open>
  A property key is an array index when it is the decimal numeral, without sign or
  leading zero, of an integer from 0 to \<open>2^32 - 2\<close>. \<open>dec\<close> writes a number as such a
  numeral and \<open>str_nat\<close> reads a string of digits.
\<close>

definition digit_value :: "jschar \<Rightarrow> nat" where
  "digit_value c = unat c - 48"

definition str_nat :: "jsstring \<Rightarrow> nat" where
  "str_nat k = foldl (\<lambda>n c. 10 * n + digit_value c) 0 k"

definition digit_char :: "nat \<Rightarrow> jschar" where
  "digit_char d = of_nat (48 + d)"

fun dec :: "nat \<Rightarrow> jsstring" where
  "dec n = (if n < 10 then [digit_char n] else dec (n div 10) @ [digit_char (n mod 10)])"

declare dec.simps [simp del]

definition array_index :: "jsstring \<Rightarrow> nat option" where
  "array_index k =
     (if k \<noteq> [] \<and> list_all decimal_digit k \<and> str_nat k \<le> 4294967294 \<and> dec (str_nat k) = k
      then Some (str_nat k) else None)"

definition index_key :: "jsstring \<times> jsstring \<Rightarrow> bool" where
  "index_key p = (array_index (fst p) \<noteq> None)"

definition index_value :: "jsstring \<times> jsstring \<Rightarrow> nat" where
  "index_value p = (case array_index (fst p) of None \<Rightarrow> 0 | Some n \<Rightarrow> n)"

text \<open>
  The order in which \<^verbatim>\<open>Object.values\<close> lists the properties of an object: those whose
  key is an array index first, by ascending index, then the others in the order of their
  creation.
\<close>

definition own_entries :: "row_object \<Rightarrow> row_object" where
  "own_entries row =
     sort_key index_value (filter index_key row) @ filter (\<lambda>p. \<not> index_key p) row"

text \<open>\<^verbatim>\<open>Object.values(row)[0]\<close>.\<close>

definition first_value :: "row_object \<Rightarrow> jsval" where
  "first_value row = (case own_entries row of [] \<Rightarrow> Undefined | p # _ \<Rightarrow> Str (snd p))"

record csv_item =
  item_barcode :: jsval
  item_text :: jsval

text \<open>The callback \<^verbatim>\<open>complete\<close> of the tabular branch (lines 164 to 170).\<close>

definition csv_item_of :: "row_object \<Rightarrow> csv_item" where
  "csv_item_of row =
     \<lparr>item_barcode =
        or_else (or_else (get_prop row (js ''barcode'')) (get_prop row (js ''Barcode''))) (first_value row),
      item_text =
        or_else (or_else (or_else (or_else (get_prop row (js ''text'')) (get_prop row (js ''Text'')))
          (get_prop row (js ''barcode''))) (get_prop row (js ''Barcode''))) (first_value row)\<rparr>"

definition csv_batch :: "row_object list \<Rightarrow> csv_item list" where
  "csv_batch data = map csv_item_of data"

text \<open>
  The row object of a record under a header: the parser starts from an empty object and
  assigns the cells to the header names, column by column. (A cell beyond the last
  header name goes elsewhere, and an assignment to \<^verbatim>\<open>__proto__\<close> creates no property:
  the theorems are about records with as many cells as the header has names, none of
  them \<^verbatim>\<open>__proto__\<close>.)
\<close>

definition make_row :: "jsstring list \<Rightarrow> jsstring list \<Rightarrow> row_object" where
  "make_row header cells = fold (\<lambda>p row. set_prop row (fst p) (snd p)) (zip header cells) []"

text \<open>The cell of a record in the first column of a given name, if there is one.\<close>

fun column :: "jsstring list \<Rightarrow> jsstring list \<Rightarrow> jsstring \<Rightarrow> jsval" where
  "column (h # hs) (c # cs) name = (if h = name then Str c else column hs cs name)"
| "column hs cs name = Undefined"

text \<open>
  The reading of the specification, to compare with: the field whose name is
  \<^verbatim>\<open>barcode\<close> (or \<^verbatim>\<open>text\<close>) in any letter case.
\<close>

definition lower :: "jschar \<Rightarrow> jschar" where
  "lower c = (if 0x41 \<le> c \<and> c \<le> 0x5A then c + 0x20 else c)"

definition field_ci :: "row_object \<Rightarrow> jsstring \<Rightarrow> jsstring option" where
  "field_ci row name = map_option snd (find (\<lambda>kv. map lower (fst kv) = name) (own_entries row))"

definition spec_code :: "row_object \<Rightarrow> jsval" where
  "spec_code row =
     (case field_ci row (js ''barcode'') of Some v \<Rightarrow> Str v | None \<Rightarrow> first_value row)"

definition spec_label :: "row_object \<Rightarrow> jsval" where
  "spec_label row =
     (case field_ci row (js ''text'') of Some v \<Rightarrow> Str v | None \<Rightarrow> spec_code row)"

text \<open>The invariant of the configurations: at most one run is suspended, and while one is, \<^verbatim>\<open>isGenerating\<close> is set.\<close>

definition runs_inv :: "'n config \<Rightarrow> bool" where
  "runs_inv c = (case snd c of [] \<Rightarrow> True | [r] \<Rightarrow> isGenerating (fst c) \<and> run_tail r | _ \<Rightarrow> False)"




section \<open>Example inputs\<close>

definition hello_example :: jsstring where
  "hello_example = js ''h'' @ [0xE9] @ js ''llo!''"

definition env_ok :: "'n env" where
  "env_ok = \<lparr>getContext2d = True, canvasRef = True, previewRef = True,
     renderer_throws = (\<lambda>t c opts. False)\<rparr>"

definition env_no_context :: "'n env" where
  "env_no_context = \<lparr>getContext2d = False, canvasRef = True, previewRef = True,
     renderer_throws = (\<lambda>t c opts. False)\<rparr>"

definition example_row :: BatchRow where
  "example_row = \<lparr>barcode = js ''ABCD1234'', btext = Some (js ''Codice Speciale'')\<rparr>"

definition one_row_app :: "'n::{times,inverse,numeral} app" where
  "one_row_app = initial_app\<lparr>batchData := [example_row]\<rparr>"

definition svg_example :: "real app" where
  "svg_example = initial_app
     \<lparr>inputText := js ''ABCD1234'',
      exportSettings := \<lparr>eformat = SVG, resolution = 800, prefix = js ''IT_'', suffix = js ''_v1''\<rparr>,
      batchData := [example_row]\<rparr>"

definition png_example :: "real app" where
  "png_example = svg_example\<lparr>exportSettings := (exportSettings svg_example)\<lparr>eformat := PNG\<rparr>\<rparr>"

definition upper_header_row :: row_object where
  "upper_header_row = make_row [js ''BARCODE'', js ''TEXT''] [js ''123456789012'', js ''Prodotto A'']"

definition readme_header :: "jsstring list" where
  "readme_header = [js ''barcode'', js ''text'']"

definition readme_records :: "jsstring list list" where
  "readme_records =
     [[js ''123456789012'', js ''Prodotto A''], [js ''ABCD1234'', js ''Codice Speciale'']]"

definition numbered_header :: "jsstring list" where
  "numbered_header = [js ''name'', js ''1'']"

definition numbered_record :: "jsstring list" where
  "numbered_record = [js ''foo'', js ''bar'']"

section \<open>Properties of the matcher\<close>

lemma rx_match_Rep:
  "rx_match (Rep cls n # p) at0 s =
     (n \<le> length s \<and> list_all (in_class cls) (take n s) \<and> rx_match p (at0 \<and> n = 0) (drop n s))"
proof (induction n arbitrary: at0 s)
  case 0
  show ?case by simp
next
  case (Suc n)
  show ?case
  proof (cases s)
    case Nil
    then show ?thesis by simp
  next
    case (Cons c cs)
    then show ?thesis using Suc.IH [of False cs] by auto
  qed
qed

lemma rx_match_Rep_Eol:
  "rx_match [Rep cls n, Eol] at0 s = (length s = n \<and> list_all (in_class cls) s)"
  by (auto simp: rx_match_Rep)

lemma rx_match_Plus_Eol:
  "rx_match [Plus cls, Eol] at0 s = (s \<noteq> [] \<and> list_all (in_class cls) s)"
proof (induction s arbitrary: at0)
  case Nil
  show ?case by simp
next
  case (Cons c cs)
  show ?case using Cons.IH [of False] by (cases cs) auto
qed

lemma rx_test_Bol: "rx_test (Bol # p) s = rx_match p True s"
proof -
  have "rx_test (Bol # p) s = (\<exists>i\<in>{0..<Suc (length s)}. i = 0 \<and> rx_match p (i = 0) (drop i s))"
    by (simp add: rx_test_def list_ex_iff del: upt_Suc)
  also have "\<dots> = rx_match p True s"
    by auto
  finally show ?thesis .
qed

lemma in_class_digit: "in_class rx_digit c = decimal_digit c"
  by (simp add: in_class_def rx_digit_def decimal_digit_def cu_def)

lemma in_class_code39: "in_class rx_code39 c = code39_char c"
  by (auto simp: in_class_def rx_code39_def code39_char_def decimal_digit_def upper_letter_def
      cu_def js_def)

lemma test_digits:
  "rx_test [Bol, Rep rx_digit n, Eol] s = (length s = n \<and> list_all decimal_digit s)"
  by (simp add: rx_test_Bol rx_match_Rep_Eol in_class_digit [abs_def])

lemma test_code39:
  "rx_test [Bol, Plus rx_code39, Eol] s = (s \<noteq> [] \<and> list_all code39_char s)"
  by (simp add: rx_test_Bol rx_match_Plus_Eol in_class_code39 [abs_def])

section \<open>Properties of the validator\<close>

lemma validate_CODE128: "validateBarcode s (js ''CODE128'') = (s \<noteq> [])"
  by (simp add: validateBarcode_def BARCODE_FORMATS_def js_def cu_def)

lemma validate2_CODE128: "validateBarcode2 s (js ''CODE128'') = True"
  by (simp add: validateBarcode2_def BARCODE_FORMATS_def js_def cu_def)

lemma validate_CODE39:
  "validateBarcode s (js ''CODE39'') = (s \<noteq> [] \<and> list_all code39_char s)"
  by (simp add: validateBarcode_def BARCODE_FORMATS_def js_def cu_def
      test_code39 [unfolded js_def cu_def])

lemma validate2_CODE39:
  "validateBarcode2 s (js ''CODE39'') = (s \<noteq> [] \<and> list_all code39_char s)"
  by (simp add: validateBarcode2_def BARCODE_FORMATS_def js_def cu_def
      test_code39 [unfolded js_def cu_def])

lemma validate_EAN13:
  "validateBarcode s (js ''EAN13'') = (length s = 13 \<and> list_all decimal_digit s)"
  by (auto simp: validateBarcode_def BARCODE_FORMATS_def test_digits js_def cu_def)

lemma validate_EAN8:
  "validateBarcode s (js ''EAN8'') = (length s = 8 \<and> list_all decimal_digit s)"
  by (auto simp: validateBarcode_def BARCODE_FORMATS_def test_digits js_def cu_def)

lemma validate_UPC:
  "validateBarcode s (js ''UPC'') = (length s = 12 \<and> list_all decimal_digit s)"
  by (auto simp: validateBarcode_def BARCODE_FORMATS_def test_digits js_def cu_def)

lemma validate2_EAN13:
  "validateBarcode2 s (js ''EAN13'') = (length s = 13 \<and> list_all decimal_digit s)"
  by (auto simp: validateBarcode2_def BARCODE_FORMATS_def test_digits js_def cu_def)

lemma validate2_EAN8:
  "validateBarcode2 s (js ''EAN8'') = (length s = 8 \<and> list_all decimal_digit s)"
  by (auto simp: validateBarcode2_def BARCODE_FORMATS_def test_digits js_def cu_def)

lemma validate2_UPC:
  "validateBarcode2 s (js ''UPC'') = (length s = 12 \<and> list_all decimal_digit s)"
  by (auto simp: validateBarcode2_def BARCODE_FORMATS_def test_digits js_def cu_def)

lemma validate_unknown:
  "fmt \<notin> set supported_formats \<Longrightarrow> \<not> validateBarcode text fmt"
  by (auto simp: validateBarcode_def BARCODE_FORMATS_def supported_formats_def)

lemma validate2_unknown:
  "fmt \<notin> set supported_formats \<Longrightarrow> \<not> validateBarcode2 text fmt"
  by (auto simp: validateBarcode2_def BARCODE_FORMATS_def supported_formats_def)

lemma validate_empty: "\<not> validateBarcode [] fmt"
  by (simp add: validateBarcode_def)

lemma validateBarcode_rejects:
  "fmt \<notin> set supported_formats \<or> text = [] \<Longrightarrow> \<not> validateBarcode text fmt"
  using validate_unknown validate_empty by blast

lemma digits_13: "list_all decimal_digit (js ''1234567890123'')"
  by (simp add: js_def cu_def decimal_digit_def)

lemma digits_8: "list_all decimal_digit (js ''12345678'')"
  by (simp add: js_def cu_def decimal_digit_def)

lemma digits_12: "list_all decimal_digit (js ''123456789012'')"
  by (simp add: js_def cu_def decimal_digit_def)

text \<open>
  Claim C2. For every string, both variants of \<^verbatim>\<open>validateBarcode\<close> admit it for
  \<^verbatim>\<open>EAN13\<close> exactly when it is 13 decimal digits, for \<^verbatim>\<open>EAN8\<close> exactly when it is 8
  decimal digits, and for \<^verbatim>\<open>UPC\<close> exactly when it is 12 decimal digits. Of the three,
  \<^verbatim>\<open>1234567890123\<close> passes only EAN-13, \<^verbatim>\<open>12345678\<close> only EAN-8 and
  \<^verbatim>\<open>123456789012\<close> only UPC-A.
\<close>

theorem ean_upc_exact_digits:
  "(validateBarcode s (js ''EAN13'') = (length s = 13 \<and> list_all decimal_digit s)) \<and>
   (validateBarcode s (js ''EAN8'') = (length s = 8 \<and> list_all decimal_digit s)) \<and>
   (validateBarcode s (js ''UPC'') = (length s = 12 \<and> list_all decimal_digit s)) \<and>
   (validateBarcode2 s (js ''EAN13'') = (length s = 13 \<and> list_all decimal_digit s)) \<and>
   (validateBarcode2 s (js ''EAN8'') = (length s = 8 \<and> list_all decimal_digit s)) \<and>
   (validateBarcode2 s (js ''UPC'') = (length s = 12 \<and> list_all decimal_digit s)) \<and>
   map (validateBarcode (js ''1234567890123'')) [js ''EAN13'', js ''EAN8'', js ''UPC'']
     = [True, False, False] \<and>
   map (validateBarcode (js ''12345678'')) [js ''EAN13'', js ''EAN8'', js ''UPC'']
     = [False, True, False] \<and>
   map (validateBarcode (js ''123456789012'')) [js ''EAN13'', js ''EAN8'', js ''UPC'']
     = [False, False, True]"
  by (simp add: validate_EAN13 validate_EAN8 validate_UPC validate2_EAN13 validate2_EAN8
      validate2_UPC digits_13 digits_8 digits_12) (simp add: js_def)

text \<open>
  Claim C4. \<^verbatim>\<open>validateBarcode\<close> admits a string for \<^verbatim>\<open>CODE39\<close> exactly when it is not
  empty and each of its characters is a digit, an upper-case letter, a space or one of
  \<^verbatim>\<open>- . $ / + %\<close>; \<^verbatim>\<open>abc\<close> is rejected and \<^verbatim>\<open>ABC-123\<close> is admitted.
\<close>

theorem code39_alphabet:
  "(validateBarcode s (js ''CODE39'') = (s \<noteq> [] \<and> list_all code39_char s)) \<and>
   \<not> validateBarcode (js ''abc'') (js ''CODE39'') \<and>
   validateBarcode (js ''ABC-123'') (js ''CODE39'')"
  by (simp add: validate_CODE39)
    (simp add: js_def cu_def code39_char_def decimal_digit_def upper_letter_def)

text \<open>
  Claim C5. \<^verbatim>\<open>validateBarcode\<close> admits every non-empty string for \<^verbatim>\<open>CODE128\<close>. The
  instance below is the string h, e with acute accent, l, l, o, exclamation mark, which the
  four other formats reject.
\<close>

theorem code128_accepts_nonempty:
  "s \<noteq> [] \<Longrightarrow> validateBarcode s (js ''CODE128'')"
  by (simp add: validate_CODE128)

theorem code128_accepts_nonempty_witness:
  "hello_example \<noteq> [] \<and> validateBarcode hello_example (js ''CODE128'') \<and>
   map (validateBarcode hello_example) [js ''CODE39'', js ''EAN13'', js ''EAN8'', js ''UPC'']
     = [False, False, False, False]"
proof -
  have ne: "hello_example \<noteq> []"
    by (simp add: hello_example_def js_def)
  have others: "map (validateBarcode hello_example) [js ''CODE39'', js ''EAN13'', js ''EAN8'', js ''UPC'']
     = [False, False, False, False]"
    by (simp add: validate_CODE39 validate_EAN13 validate_EAN8 validate_UPC)
      (simp add: hello_example_def js_def cu_def code39_char_def decimal_digit_def upper_letter_def)
  show ?thesis
    using code128_accepts_nonempty [OF ne] ne others by simp
qed

text \<open>
  Claim C3 says that the validator rejects the empty string for every format, and
  every string for a format that is not in the table. The first variant does
  (\<open>validateBarcode_rejects\<close>), and the second rejects a format that is not in the table
  (\<open>validate2_unknown\<close>); but the second variant, which lacks the test of the text that
  the first one starts with, admits the empty string for \<^verbatim>\<open>CODE128\<close>.
\<close>

theorem validateBarcode2_admits_empty_code128:
  "validateBarcode2 [] (js ''CODE128'') \<and> \<not> validateBarcode [] (js ''CODE128'')"
  by (simp add: validate2_CODE128 validate_CODE128)

text \<open>
  Claim C10 says that the two variants of \<^verbatim>\<open>validateBarcode\<close> return the same result
  on every text and format. On the empty text with \<^verbatim>\<open>CODE128\<close> the first variant
  rejects and the second, which lacks the test of the text, admits.
\<close>

theorem variants_differ_on_empty_code128:
  "validateBarcode [] (js ''CODE128'') \<noteq> validateBarcode2 [] (js ''CODE128'')"
  by (simp add: validate2_CODE128 validate_CODE128)

text \<open>On every other text and format the two variants return the same result.\<close>

lemma variants_agree_elsewhere:
  "(text, fmt) \<noteq> ([], js ''CODE128'') \<Longrightarrow>
     validateBarcode text fmt = validateBarcode2 text fmt"
  by (auto simp: validateBarcode_def validateBarcode2_def BARCODE_FORMATS_def test_digits
      test_code39)

lemma variants_agree_elsewhere_example:
  "(js ''ABC-123'', js ''CODE39'') \<noteq> ([], js ''CODE128'') \<and>
   validateBarcode (js ''ABC-123'') (js ''CODE39'') = validateBarcode2 (js ''ABC-123'') (js ''CODE39'') \<and>
   ([], js ''EAN13'') \<noteq> ([], js ''CODE128'') \<and>
   validateBarcode [] (js ''EAN13'') = validateBarcode2 [] (js ''EAN13'')"
proof -
  have a: "(js ''ABC-123'', js ''CODE39'') \<noteq> ([], js ''CODE128'')"
    by (simp add: js_def)
  have b: "([], js ''EAN13'') \<noteq> ([]::jsstring, js ''CODE128'')"
    by (simp add: js_def cu_def)
  show ?thesis
    using variants_agree_elsewhere [OF a] variants_agree_elsewhere [OF b] a b by simp
qed

section \<open>Properties of a batch run\<close>

lemma js_append: "js (a @ b) = js a @ js b"
  by (simp add: js_def)

lemma rendered_append: "rendered (as @ bs) = rendered as @ rendered bs"
  by (induction as rule: rendered.induct) simp_all

lemma rendered_render_row: "rendered (render_row e bs es item) = [barcode item]"
  by (simp add: render_row_def Let_def)

lemma rendered_batch_loop:
  "rendered (batch_loop e bs es rows) =
     map barcode (filter (\<lambda>item. validateBarcode (barcode item) (format bs)) rows)"
  by (induction rows) (simp_all add: rendered_append rendered_render_row)

lemma rendered_generateBatch:
  "getContext2d e \<Longrightarrow> rendered (generateBatch e s) = map barcode (valid_rows s)"
  by (simp add: generateBatch_def valid_rows_def rendered_append rendered_batch_loop)

lemma quiet_render_row: "list_all quiet (render_row e bs es item)"
  by (simp add: render_row_def Let_def)

lemma quiet_batch_loop: "list_all quiet (batch_loop e bs es rows)"
  by (induction rows) (simp_all add: quiet_render_row)

lemma apply_actions_Cons: "apply_actions (a # as) s = apply_actions as (apply_action a s)"
  by (simp add: apply_actions_def)

lemma apply_actions_append:
  "apply_actions (as @ bs) s = apply_actions bs (apply_actions as s)"
  by (simp add: apply_actions_def)

lemma apply_action_quiet: "quiet a \<Longrightarrow> isGenerating (apply_action a s) = isGenerating s"
  by (cases a) simp_all

lemma apply_actions_quiet:
  "list_all quiet as \<Longrightarrow> isGenerating (apply_actions as s) = isGenerating s"
  by (induction as arbitrary: s) (simp_all add: apply_actions_def apply_action_quiet)

lemma apply_run_tail: "run_tail r \<Longrightarrow> \<not> isGenerating (apply_actions r s)"
proof -
  assume rt: "run_tail r"
  then have "r = butlast r @ [SetIsGenerating False]"
    by (metis append_butlast_last_id run_tail_def)
  then have "apply_actions r s = apply_action (SetIsGenerating False) (apply_actions (butlast r) s)"
    by (metis apply_actions_append apply_actions_Cons apply_actions_def fold_simps(1))
  then show ?thesis by simp
qed

lemma run_tail_generateBatch:
  "getContext2d e \<Longrightarrow> batchData s \<noteq> [] \<Longrightarrow> generateBatch e s = SetIsGenerating True # r
     \<Longrightarrow> run_tail r"
  by (auto simp: generateBatch_def run_tail_def butlast_append quiet_batch_loop)

lemma generateBatch_ends_idle:
  "getContext2d e \<Longrightarrow> batchData s \<noteq> [] \<Longrightarrow> \<not> isGenerating (apply_actions (generateBatch e s) s)"
proof -
  assume a: "getContext2d e" "batchData s \<noteq> []"
  then obtain r where r: "generateBatch e s = SetIsGenerating True # r"
    by (simp add: generateBatch_def)
  with a have "run_tail r" by (rule run_tail_generateBatch)
  then show ?thesis
    by (simp add: r apply_actions_Cons apply_run_tail)
qed

lemma generateBatch_no_rows: "batchData s = [] \<Longrightarrow> generateBatch e s = []"
  by (simp add: generateBatch_def)

lemma generateBatch_no_context:
  "\<not> getContext2d e \<Longrightarrow> batchData s \<noteq> [] \<Longrightarrow> generateBatch e s = [SetIsGenerating True]"
  by (simp add: generateBatch_def)

lemma count_valid_rows:
  "length (valid_rows s) =
     length (batchData s) -
     length (filter (\<lambda>item. \<not> validateBarcode (barcode item) (format (barcodeSettings s))) (batchData s))"
  using sum_length_filter_compl [of "\<lambda>item. validateBarcode (barcode item) (format (barcodeSettings s))" "batchData s"]
  by (simp add: valid_rows_def)

section \<open>Suspended runs\<close>

lemma split_sleep_None: "split_sleep r = (now, None) \<Longrightarrow> now = r"
  by (induction r arbitrary: now rule: split_sleep.induct) (auto split: prod.splits)

lemma split_sleep_Some:
  "split_sleep r = (now, Some r') \<Longrightarrow> r = now @ r' \<and> now \<noteq> [] \<and> (\<exists>n. last now = Sleep n)"
  by (induction r arbitrary: now rule: split_sleep.induct) (auto split: prod.splits)

lemma run_tail_split:
  assumes "run_tail r" and "split_sleep r = (now, Some r')"
  shows "list_all quiet now \<and> run_tail r'"
proof -
  from assms(2) obtain n where r: "r = now @ r'" and ne: "now \<noteq> []" and l: "last now = Sleep n"
    using split_sleep_Some by blast
  have "r' \<noteq> []"
  proof
    assume "r' = []"
    with r l ne have "last r = Sleep n" by simp
    with assms(1) show False by (simp add: run_tail_def)
  qed
  with r assms(1) show ?thesis
    by (simp add: run_tail_def butlast_append)
qed

lemma runs_inv_Click:
  assumes "runs_inv (s, runs)" and "fire (Click e) (s, runs) = Some c'"
  shows "runs_inv c'"
proof -
  from assms(2) have en: "\<not> isGenerating s" "batchData s \<noteq> []"
    by (auto simp: generate_disabled_def split: if_splits)
  with assms(1) have runs: "runs = []"
    by (auto simp: runs_inv_def split: list.splits)
  show ?thesis
  proof (cases "getContext2d e")
    case False
    with en assms(2) runs show ?thesis
      by (auto simp: generate_disabled_def generateBatch_no_context runs_inv_def)
  next
    case True
    with en obtain r where r: "generateBatch e s = SetIsGenerating True # r"
      by (simp add: generateBatch_def)
    with True en have rt: "run_tail r" by (simp add: run_tail_generateBatch)
    obtain now later where sp: "split_sleep r = (now, later)" by (cases "split_sleep r")
    show ?thesis
    proof (cases later)
      case None
      with sp r en assms(2) runs show ?thesis
        by (auto simp: generate_disabled_def runs_inv_def)
    next
      case (Some r')
      with sp rt have "list_all quiet now" "run_tail r'"
        using run_tail_split by blast+
      with Some sp r en assms(2) runs show ?thesis
        by (auto simp: generate_disabled_def runs_inv_def apply_actions_Cons apply_actions_quiet)
    qed
  qed
qed

lemma runs_inv_Resume:
  assumes "runs_inv (s, runs)" and "fire (Resume i) (s, runs) = Some c'"
  shows "runs_inv c'"
proof -
  from assms(2) have i: "i < length runs" by (simp split: if_splits)
  with assms(1) obtain r where runs: "runs = [r]" and g: "isGenerating s" and rt: "run_tail r"
    by (auto simp: runs_inv_def split: list.splits)
  with i have i0: "i = 0" by simp
  obtain now later where sp: "split_sleep r = (now, later)" by (cases "split_sleep r")
  show ?thesis
  proof (cases later)
    case None
    with sp runs i0 assms(2) show ?thesis by (auto simp: runs_inv_def)
  next
    case (Some r')
    with sp rt have "list_all quiet now" "run_tail r'"
      using run_tail_split by blast+
    with Some sp runs i0 g assms(2) show ?thesis
      by (auto simp: runs_inv_def apply_actions_quiet)
  qed
qed

lemma runs_inv_Other:
  assumes "runs_inv (s, runs)" and "fire (Other s') (s, runs) = Some c'"
  shows "runs_inv c'"
  using assms by (auto simp: runs_inv_def split: if_splits list.splits)

lemma runs_inv_fire: "runs_inv c \<Longrightarrow> fire ev c = Some c' \<Longrightarrow> runs_inv c'"
  by (cases ev; cases c) (auto intro: runs_inv_Click runs_inv_Resume runs_inv_Other)

lemma runs_inv_fire_all: "runs_inv c \<Longrightarrow> fire_all evs c = Some c' \<Longrightarrow> runs_inv c'"
proof (induction evs arbitrary: c)
  case Nil
  then show ?case by simp
next
  case (Cons ev evs)
  then show ?case by (auto split: option.splits dest: runs_inv_fire)
qed

lemma runs_inv_initial: "runs_inv (initial_app, [])"
  by (simp add: runs_inv_def)

lemma fire_changes_flag:
  assumes "runs_inv (s, runs)" and "fire ev (s, runs) = Some (s', runs')"
    and "isGenerating s' \<noteq> isGenerating s"
  shows "case ev of Click e \<Rightarrow> \<not> isGenerating s \<and> isGenerating s'
         | Resume i \<Rightarrow> isGenerating s \<and> \<not> isGenerating s' \<and> runs' = []
         | Other x \<Rightarrow> False"
proof (cases ev)
  case (Click e)
  with assms(2) have "\<not> isGenerating s"
    by (auto simp: generate_disabled_def split: if_splits)
  with assms(3) Click show ?thesis by simp
next
  case (Resume i)
  with assms(2) have i: "i < length runs" by (simp split: if_splits)
  with assms(1) obtain r where runs: "runs = [r]" and g: "isGenerating s" and rt: "run_tail r"
    by (auto simp: runs_inv_def split: list.splits)
  obtain now later where sp: "split_sleep r = (now, later)" by (cases "split_sleep r")
  show ?thesis
  proof (cases later)
    case None
    with sp runs i assms(2) assms(3) g Resume show ?thesis by auto
  next
    case (Some r')
    with sp rt have "list_all quiet now" using run_tail_split by blast
    with Some sp runs i assms(2) assms(3) g Resume show ?thesis
      by (auto simp: apply_actions_quiet)
  qed
next
  case (Other x)
  with assms(2) assms(3) show ?thesis by (auto split: if_splits)
qed

text \<open>
  No two runs overlap. Along every sequence of events from the initial state, at most one
  batch run is in flight; while one is, \<^verbatim>\<open>isGenerating\<close> is set; while \<^verbatim>\<open>isGenerating\<close>
  is set the batch button refuses a click; and \<^verbatim>\<open>isGenerating\<close> changes only from false
  to true at a click and from true to false when the run in flight ends.
\<close>

lemma no_overlapping_runs:
  "fire_all evs (initial_app, []) = Some (s, runs) \<Longrightarrow>
     length runs \<le> 1 \<and> (runs \<noteq> [] \<longrightarrow> isGenerating s) \<and>
     (isGenerating s \<longrightarrow> fire (Click e) (s, runs) = None) \<and>
     (fire ev (s, runs) = Some (s', runs') \<and> isGenerating s' \<noteq> isGenerating s \<longrightarrow>
        (case ev of Click e' \<Rightarrow> \<not> isGenerating s \<and> isGenerating s'
         | Resume i \<Rightarrow> isGenerating s \<and> \<not> isGenerating s' \<and> runs' = []
         | Other x \<Rightarrow> False))"
proof -
  assume "fire_all evs (initial_app, []) = Some (s, runs)"
  with runs_inv_initial have i: "runs_inv (s, runs)" by (rule runs_inv_fire_all)
  then have "length runs \<le> 1 \<and> (runs \<noteq> [] \<longrightarrow> isGenerating s) \<and>
     (isGenerating s \<longrightarrow> fire (Click e) (s, runs) = None)"
    by (auto simp: runs_inv_def generate_disabled_def split: list.splits)
  with fire_changes_flag [OF i] show ?thesis by blast
qed

section \<open>The examples\<close>

lemma example_row_valid: "validateBarcode (barcode example_row) (js ''CODE128'')"
  by (simp add: validate_CODE128) (simp add: example_row_def js_def)

lemma one_row_enabled: "\<not> generate_disabled one_row_app"
  by (simp add: generate_disabled_def one_row_app_def initial_app_def)

lemma one_row_split:
  "split_sleep (generateBatch env_ok one_row_app) =
     (butlast (generateBatch env_ok one_row_app), Some [SetIsGenerating False])"
  by (simp add: one_row_app_def initial_app_def generateBatch_def env_ok_def example_row_valid
      render_row_def)

lemma one_row_click:
  "fire (Click env_ok) (one_row_app, []) =
     Some (one_row_app\<lparr>isGenerating := True\<rparr>, [[SetIsGenerating False]])"
  by (simp add: one_row_enabled one_row_split)
    (simp add: one_row_app_def initial_app_def generateBatch_def env_ok_def example_row_valid
      render_row_def apply_actions_def)

lemma no_overlapping_runs_example:
  "fire_all [Other one_row_app, Click env_ok] (initial_app :: real app, []) =
     Some (one_row_app\<lparr>isGenerating := True\<rparr>, [[SetIsGenerating False]]) \<and>
   length [[SetIsGenerating False :: real action]] \<le> 1 \<and>
   isGenerating (one_row_app\<lparr>isGenerating := True\<rparr> :: real app) \<and>
   fire (Click env_ok) (one_row_app\<lparr>isGenerating := True\<rparr> :: real app, [[SetIsGenerating False]]) = None \<and>
   fire_all [Other one_row_app, Click env_ok, Resume 0] (initial_app :: real app, []) =
     Some (one_row_app\<lparr>isGenerating := False\<rparr>, [])"
proof -
  have other: "fire (Other one_row_app) (initial_app :: real app, []) = Some (one_row_app, [])"
    by (simp add: one_row_app_def initial_app_def)
  have run: "fire_all [Other one_row_app, Click env_ok] (initial_app :: real app, []) =
     Some (one_row_app\<lparr>isGenerating := True\<rparr>, [[SetIsGenerating False]])"
    by (simp add: other one_row_click del: fire.simps)
  have resume: "fire (Resume 0) (one_row_app\<lparr>isGenerating := True\<rparr> :: real app, [[SetIsGenerating False]]) =
     Some (one_row_app\<lparr>isGenerating := False\<rparr>, [])"
    by (simp add: apply_actions_def)
  have fin: "fire_all [Other one_row_app, Click env_ok, Resume 0] (initial_app :: real app, []) =
     Some (one_row_app\<lparr>isGenerating := False\<rparr>, [])"
    by (simp add: other one_row_click resume del: fire.simps)
  show ?thesis
    using no_overlapping_runs [OF run, of env_ok] run fin by simp
qed

lemma stays_running:
  "isGenerating s \<Longrightarrow> fire_all evs (s, []) = Some c \<Longrightarrow> isGenerating (fst c) \<and> snd c = []"
proof (induction evs arbitrary: s)
  case Nil
  then show ?case by auto
next
  case (Cons ev evs)
  from Cons.prems obtain c' where c': "fire ev (s, []) = Some c'" and r: "fire_all evs c' = Some c"
    by (auto split: option.splits)
  from c' Cons.prems(1) obtain s' where "c' = (s', [])" and "isGenerating s'"
    by (cases ev) (auto simp: generate_disabled_def split: if_splits)
  with r Cons.IH show ?case by blast
qed

lemma one_row_no_context_click:
  "fire (Click env_no_context) (one_row_app, []) = Some (one_row_app\<lparr>isGenerating := True\<rparr>, [])"
proof -
  have g: "generateBatch env_no_context one_row_app = [SetIsGenerating True]"
    by (simp add: generateBatch_def one_row_app_def initial_app_def env_no_context_def)
  show ?thesis
    by (simp add: one_row_enabled g apply_actions_def)
qed

text \<open>
  Claim C7 says that batch generation follows the state machine Idle, Running, Idle and
  that no two runs overlap. No two runs overlap (\<open>no_overlapping_runs\<close>). But the run that
  finds no 2D context sets \<^verbatim>\<open>isGenerating\<close> and returns: from the initial state, an upload
  of one valid row and a click lead to Running with no run in flight, and from there
  every sequence of events that the page accepts ends in Running with no run in flight.
\<close>

theorem running_is_never_left:
  "fire_all [Other one_row_app, Click env_no_context] (initial_app :: real app, []) =
     Some (one_row_app\<lparr>isGenerating := True\<rparr>, []) \<and>
   (case fire_all evs (one_row_app\<lparr>isGenerating := True\<rparr> :: real app, []) of
      None \<Rightarrow> True
    | Some c \<Rightarrow> isGenerating (fst c) \<and> snd c = [])"
proof -
  have other: "fire (Other one_row_app) (initial_app :: real app, []) = Some (one_row_app, [])"
    by (simp add: one_row_app_def initial_app_def)
  have "fire_all [Other one_row_app, Click env_no_context] (initial_app :: real app, []) =
     Some (one_row_app\<lparr>isGenerating := True\<rparr>, [])"
    by (simp add: other one_row_no_context_click del: fire.simps)
  moreover have "isGenerating (one_row_app\<lparr>isGenerating := True\<rparr> :: real app)"
    by simp
  from stays_running [OF this, of evs]
  have "case fire_all evs (one_row_app\<lparr>isGenerating := True\<rparr> :: real app, []) of
      None \<Rightarrow> True
    | Some c \<Rightarrow> isGenerating (fst c) \<and> snd c = []"
    by (cases "fire_all evs (one_row_app\<lparr>isGenerating := True\<rparr> :: real app, [])") auto
  ultimately show ?thesis by (rule conjI)
qed

text \<open>
  Claim C1 says that batch generation over N rows of which M fail validation makes
  N - M attempts to render and export, one for each valid row in the order of the rows,
  and ends with \<^verbatim>\<open>isGenerating\<close> false. It does so when the new canvas gives a 2D context
  (\<open>rendered_generateBatch\<close>, \<open>count_valid_rows\<close>, \<open>generateBatch_ends_idle\<close>). When the
  canvas gives none, the run returns right after \<^verbatim>\<open>setIsGenerating(true)\<close>: with one valid
  row, nothing is rendered and \<^verbatim>\<open>isGenerating\<close> stays true.
\<close>

theorem batch_without_context_stays_running:
  "valid_rows (one_row_app :: real app) = [example_row] \<and>
   generateBatch env_no_context (one_row_app :: real app) = [SetIsGenerating True] \<and>
   rendered (generateBatch env_no_context (one_row_app :: real app)) = [] \<and>
   \<not> isGenerating (one_row_app :: real app) \<and>
   isGenerating (apply_actions (generateBatch env_no_context one_row_app) (one_row_app :: real app))"
proof -
  have v: "valid_rows (one_row_app :: real app) = [example_row]"
    by (simp add: valid_rows_def one_row_app_def initial_app_def example_row_valid)
  have g: "generateBatch env_no_context (one_row_app :: real app) = [SetIsGenerating True]"
    by (simp add: generateBatch_def one_row_app_def initial_app_def env_no_context_def)
  have i: "\<not> isGenerating (one_row_app :: real app)"
    by (simp add: one_row_app_def initial_app_def)
  show ?thesis by (simp add: v g i apply_actions_def)
qed

section \<open>File names and sizes\<close>

lemma dot_svg: "js ''.svg'' = js ''.'' @ format_name SVG"
  by (simp add: js_def)

lemma exports_batch_loop:
  "(cur, t, name) \<in> set (exports cur0 (batch_loop e bs es rows)) \<Longrightarrow>
     \<exists>item opts. item \<in> set rows \<and> validateBarcode (barcode item) (format bs) \<and>
       cur = Some (barcode item, opts) \<and>
       name = prefix es @ barcode item @ suffix es @ js ''.'' @ format_name (eformat es)"
proof (induction rows arbitrary: cur0)
  case Nil
  then show ?case by simp
next
  case (Cons item rest)
  show ?case
  proof (cases "validateBarcode (barcode item) (format bs)")
    case False
    with Cons.prems have "(cur, t, name) \<in> set (exports cur0 (batch_loop e bs es rest))"
      by simp
    from Cons.IH [OF this] show ?thesis by auto
  next
    case True
    from Cons.prems True have
      "(\<exists>opts. cur = Some (barcode item, opts) \<and>
          name = prefix es @ barcode item @ suffix es @ js ''.'' @ format_name (eformat es)) \<or>
       (\<exists>c. (cur, t, name) \<in> set (exports c (batch_loop e bs es rest)))"
      by (auto simp: render_row_def Let_def dot_svg split: if_splits)
    then show ?thesis
    proof
      assume "\<exists>opts. cur = Some (barcode item, opts) \<and>
          name = prefix es @ barcode item @ suffix es @ js ''.'' @ format_name (eformat es)"
      with True show ?thesis by auto
    next
      assume "\<exists>c. (cur, t, name) \<in> set (exports c (batch_loop e bs es rest))"
      then obtain c where "(cur, t, name) \<in> set (exports c (batch_loop e bs es rest))" ..
      from Cons.IH [OF this] show ?thesis by auto
    qed
  qed
qed

lemma exports_append_quiet:
  "exports cur (as @ [SetIsGenerating b]) = exports cur as"
  by (induction cur as rule: exports.induct) simp_all

lemma exports_generateBatch:
  "(cur, t, name) \<in> set (exports None (generateBatch e s)) \<Longrightarrow>
     \<exists>item opts. item \<in> set (valid_rows s) \<and> cur = Some (barcode item, opts) \<and>
       name = prefix (exportSettings s) @ barcode item @ suffix (exportSettings s) @ js ''.'' @
         format_name (eformat (exportSettings s))"
proof -
  assume "(cur, t, name) \<in> set (exports None (generateBatch e s))"
  then have "(cur, t, name) \<in> set (exports None
      (batch_loop e (barcodeSettings s) (exportSettings s) (batchData s)))"
    by (simp add: generateBatch_def exports_append_quiet split: if_splits)
  from exports_batch_loop [OF this] show ?thesis
    by (auto simp: valid_rows_def)
qed

lemma exports_downloadSingle:
  "(cur, t, name) \<in> set (exports None (downloadSingle e s)) \<Longrightarrow>
     (\<exists>opts. cur = Some (inputText s, opts)) \<and>
       name = prefix (exportSettings s) @ inputText s @ suffix (exportSettings s) @ js ''.'' @
         format_name (eformat (exportSettings s)) \<and>
       t = (if eformat (exportSettings s) = SVG then PreviewSvg else HiddenCanvas)"
  by (auto simp: downloadSingle_def Let_def dot_svg split: if_splits)











text \<open>
  Claim C6. Every file that a batch run or a single download asks to save is named
  prefix, code, suffix, a dot and the output format, in this order, where the code is the
  content of the renderer call that precedes the export (the code of the row, or the
  input text). With prefix \<^verbatim>\<open>IT_\<close>, code \<^verbatim>\<open>ABCD1234\<close>, suffix \<^verbatim>\<open>_v1\<close> and format
  \<^verbatim>\<open>svg\<close> the name is \<^verbatim>\<open>IT_ABCD1234_v1.svg\<close>.
\<close>

theorem export_file_names:
  "tr = generateBatch e s \<or> tr = downloadSingle e s \<Longrightarrow>
   (cur, t, name) \<in> set (exports None tr) \<Longrightarrow>
     \<exists>code opts. cur = Some (code, opts) \<and>
       name = prefix (exportSettings s) @ code @ suffix (exportSettings s) @ js ''.'' @
         format_name (eformat (exportSettings s))"
  using exports_generateBatch [of cur t name e s] exports_downloadSingle [of cur t name e s]
  by blast

lemma svg_example_batch:
  "generateBatch env_ok svg_example =
     [SetIsGenerating True, CanvasSize BatchCanvas (400 * (800 / 500)) (200 * (800 / 500)),
      JsBarcode RowSvg (js ''ABCD1234'')
        (plain_options (barcodeSettings svg_example) (Some (js ''Codice Speciale''))),
      SaveAs RowSvg (js ''image/svg+xml'') (js ''IT_ABCD1234_v1.svg''),
      Sleep 50, SetIsGenerating False]"
  by (simp add: generateBatch_def svg_example_def initial_app_def render_row_def env_ok_def
      ratio_of_def example_row_valid)
    (simp add: example_row_def js_def)

lemma svg_example_single:
  "downloadSingle env_ok svg_example =
     [CanvasSize HiddenCanvas (400 * (800 / 500)) (200 * (800 / 500)),
      JsBarcode HiddenCanvas (js ''ABCD1234'')
        (scaled_options (barcodeSettings svg_example) (800 / 500) (Some (js ''ABCD1234''))),
      SaveAs PreviewSvg (js ''image/svg+xml'') (js ''IT_ABCD1234_v1.svg'')]"
  by (simp add: downloadSingle_def svg_example_def initial_app_def env_ok_def ratio_of_def
      label_or_def Let_def)
    (simp add: js_def)

lemma png_example_batch:
  "generateBatch env_ok png_example =
     [SetIsGenerating True, CanvasSize BatchCanvas (400 * (800 / 500)) (200 * (800 / 500)),
      JsBarcode BatchCanvas (js ''ABCD1234'')
        (scaled_options (barcodeSettings png_example) (800 / 500) (Some (js ''Codice Speciale''))),
      ToBlob BatchCanvas (js ''image/png'') (js ''IT_ABCD1234_v1.png''),
      Sleep 50, SetIsGenerating False]"
  by (simp add: generateBatch_def png_example_def svg_example_def initial_app_def render_row_def
      env_ok_def ratio_of_def example_row_valid)
    (simp add: example_row_def js_def)

theorem export_file_names_witness:
  "exports None (generateBatch env_ok svg_example) =
     [(Some (js ''ABCD1234'',
         plain_options (barcodeSettings svg_example) (Some (js ''Codice Speciale''))),
       RowSvg, js ''IT_ABCD1234_v1.svg'')] \<and>
   js ''IT_ABCD1234_v1.svg'' =
     prefix (exportSettings svg_example) @ js ''ABCD1234'' @ suffix (exportSettings svg_example) @
       js ''.'' @ format_name (eformat (exportSettings svg_example)) \<and>
   map (snd \<circ> snd) (exports None (downloadSingle env_ok svg_example)) = [js ''IT_ABCD1234_v1.svg''] \<and>
   map (snd \<circ> snd) (exports None (generateBatch env_ok png_example)) = [js ''IT_ABCD1234_v1.png'']"
proof -
  let ?cur = "Some (js ''ABCD1234'',
         plain_options (barcodeSettings svg_example) (Some (js ''Codice Speciale'')))"
  have ex: "exports None (generateBatch env_ok svg_example) = [(?cur, RowSvg, js ''IT_ABCD1234_v1.svg'')]"
    by (simp add: svg_example_batch)
  then have mem: "(?cur, RowSvg, js ''IT_ABCD1234_v1.svg'') \<in> set (exports None (generateBatch env_ok svg_example))"
    by simp
  have "generateBatch env_ok svg_example = generateBatch env_ok svg_example \<or>
        generateBatch env_ok svg_example = downloadSingle env_ok svg_example"
    by simp
  from export_file_names [OF this mem] have name:
    "js ''IT_ABCD1234_v1.svg'' =
     prefix (exportSettings svg_example) @ js ''ABCD1234'' @ suffix (exportSettings svg_example) @
       js ''.'' @ format_name (eformat (exportSettings svg_example))"
    by auto
  show ?thesis
    using ex name by (simp add: svg_example_single png_example_batch)
qed







section \<open>Properties of the tabular upload\<close>

lemma dec_1: "dec 1 = js ''1''"
  by (subst dec.simps) (simp add: digit_char_def js_def cu_def)

lemma ai_1: "array_index (js ''1'') = Some 1"
  by (simp add: array_index_def str_nat_def digit_value_def dec_1 [unfolded js_def cu_def, simplified] js_def cu_def decimal_digit_def)

lemma array_index_not_digits: "\<not> list_all decimal_digit k \<Longrightarrow> array_index k = None"
  by (simp add: array_index_def)

lemma not_digits:
  "\<not> list_all decimal_digit (js ''barcode'')" "\<not> list_all decimal_digit (js ''text'')"
  "\<not> list_all decimal_digit (js ''BARCODE'')" "\<not> list_all decimal_digit (js ''TEXT'')"
  "\<not> list_all decimal_digit (js ''name'')"
  by (simp_all add: js_def cu_def decimal_digit_def)

lemma ai_name: "array_index (js ''name'') = None"
  by (simp add: array_index_not_digits not_digits)

lemma array_index_key: "array_index k = Some n \<Longrightarrow> k = dec n"
  by (auto simp: array_index_def split: if_splits)

lemma fold_set_prop:
  "distinct (map fst zs) \<Longrightarrow> fst ` set zs \<inter> fst ` set row = {} \<Longrightarrow>
     fold (\<lambda>p row. set_prop row (fst p) (snd p)) zs row = row @ zs"
proof (induction zs arbitrary: row)
  case Nil
  show ?case by simp
next
  case (Cons z zs)
  from Cons.prems have new: "map_of row (fst z) = None"
    by (auto simp: map_of_eq_None_iff)
  have step: "set_prop row (fst z) (snd z) = row @ [z]"
    by (simp add: set_prop_def new)
  from Cons.prems have "distinct (map fst zs)"
    and "fst ` set zs \<inter> fst ` set (row @ [z]) = {}"
    by auto
  from Cons.IH [OF this] show ?case
    by (simp add: step)
qed

lemma make_row_zip: "distinct header \<Longrightarrow> make_row header cells = zip header cells"
proof -
  assume "distinct header"
  then have "distinct (map fst (zip header cells))"
    by (simp add: map_fst_zip_take distinct_take)
  then show ?thesis
    using fold_set_prop [of "zip header cells" "[]"] by (simp add: make_row_def)
qed

lemma get_prop_zip: "get_prop (zip header cells) name = column header cells name"
  by (induction header cells name rule: column.induct) (auto simp: get_prop_def)

lemma get_prop_make_row:
  "distinct header \<Longrightarrow> get_prop (make_row header cells) name = column header cells name"
  by (simp add: make_row_zip get_prop_zip)

lemma hd_sort_key:
  assumes "xs \<noteq> []"
  shows "hd (sort_key f xs) \<in> set xs \<and> (\<forall>y\<in>set xs. f (hd (sort_key f xs)) \<le> f y)"
proof -
  from assms have ne: "sort_key f xs \<noteq> []"
    by (metis length_0_conv length_sort)
  then obtain y ys where ys: "sort_key f xs = y # ys" by (cases "sort_key f xs") auto
  have "sorted (map f (sort_key f xs))" by (rule sorted_sort_key)
  with ys have "\<forall>z\<in>set (y # ys). f y \<le> f z" by auto
  moreover have "set (y # ys) = set xs" using ys by (metis set_sort)
  ultimately show ?thesis using ys by auto
qed


lemma first_value_no_index:
  assumes "list_all (\<lambda>h. array_index h = None) header"
  shows "first_value (zip header cells) =
     (case zip header cells of [] \<Rightarrow> Undefined | p # _ \<Rightarrow> Str (snd p))"
proof -
  have "\<forall>p\<in>set (zip header cells). \<not> index_key p"
    using assms by (auto simp: index_key_def list_all_iff dest: set_zip_leftD)
  then have "filter index_key (zip header cells) = []"
    and "filter (\<lambda>p. \<not> index_key p) (zip header cells) = zip header cells"
    by (simp_all add: filter_empty_conv)
  then show ?thesis by (simp add: first_value_def own_entries_def)
qed

lemma first_value_least_index:
  assumes d: "distinct header" and j: "j < length header" "j < length cells"
    and m: "array_index (header ! j) = Some m"
    and least: "\<forall>h\<in>set header. \<forall>n. array_index h = Some n \<longrightarrow> m \<le> n"
  shows "first_value (zip header cells) = Str (cells ! j)"
proof -
  let ?zs = "zip header cells"
  let ?xs = "filter index_key ?zs"
  have pj: "(header ! j, cells ! j) \<in> set ?zs"
    using j by (auto simp: set_zip)
  with m have "(header ! j, cells ! j) \<in> set ?xs"
    by (simp add: index_key_def)
  then have ne: "?xs \<noteq> []" by (metis empty_iff list.set(1))
  define p where "p = hd (sort_key index_value ?xs)"
  from hd_sort_key [OF ne, of index_value]
  have pin: "p \<in> set ?xs" and pmin: "\<forall>y\<in>set ?xs. index_value p \<le> index_value y"
    by (simp_all add: p_def)
  from pin have pz: "p \<in> set ?zs" and pk: "index_key p" by auto
  then obtain n where n: "array_index (fst p) = Some n"
    by (auto simp: index_key_def)
  have pp: "(fst p, snd p) \<in> set ?zs"
    using pz by simp
  then have "fst p \<in> set header"
    by (rule set_zip_leftD)
  with least n have "m \<le> n" by blast
  moreover from pmin \<open>(header ! j, cells ! j) \<in> set ?xs\<close> have "n \<le> m"
    using n m by (auto simp: index_value_def)
  ultimately have "n = m" by simp
  then have fp: "fst p = header ! j"
    using array_index_key [OF n] array_index_key [OF m] by simp
  have dz: "distinct (map fst ?zs)"
    using d by (simp add: map_fst_zip_take distinct_take)
  have "(header ! j, snd p) \<in> set ?zs"
    using pp fp by simp
  from eq_key_imp_eq_value [OF dz this pj] have "snd p = cells ! j" .
  moreover have "sort_key index_value ?xs \<noteq> []"
    using ne length_sort [of index_value ?xs] by (cases "sort_key index_value ?xs") auto
  ultimately show ?thesis
    by (cases "sort_key index_value ?xs") (auto simp: first_value_def own_entries_def p_def)
qed


lemma or_else_assoc: "or_else (or_else a b) c = or_else a (or_else b c)"
  by (simp add: or_else_def)

lemma item_text_falls_back_to_code:
  "item_text (csv_item_of row) =
     or_else (or_else (get_prop row (js ''text'')) (get_prop row (js ''Text'')))
       (item_barcode (csv_item_of row))"
  by (simp add: csv_item_of_def or_else_assoc)

lemma first_value_first_column:
  "distinct header \<Longrightarrow> length cells = length header \<Longrightarrow>
   list_all (\<lambda>h. array_index h = None) header \<Longrightarrow>
     first_value (make_row header cells) = (case cells of [] \<Rightarrow> Undefined | c # _ \<Rightarrow> Str c)"
proof -
  assume d: "distinct header" and l: "length cells = length header"
    and n: "list_all (\<lambda>h. array_index h = None) header"
  have "first_value (make_row header cells) =
     (case zip header cells of [] \<Rightarrow> Undefined | p # _ \<Rightarrow> Str (snd p))"
    by (simp only: make_row_zip [OF d] first_value_no_index [OF n])
  also have "\<dots> = (case cells of [] \<Rightarrow> Undefined | c # _ \<Rightarrow> Str c)"
    using l by (cases header; cases cells) simp_all
  finally show ?thesis .
qed

lemma readme_header_plain:
  "distinct readme_header" "js ''__proto__'' \<notin> set readme_header"
  "list_all (\<lambda>h. array_index h = None) readme_header"
  by (simp_all add: readme_header_def array_index_not_digits not_digits) (simp_all add: js_def)

lemma readme_row:
  assumes "a \<noteq> []" and "b \<noteq> []"
  shows "csv_item_of (make_row readme_header [a, b]) =
     \<lparr>item_barcode = Str a, item_text = Str b\<rparr>"
proof -
  have z: "make_row readme_header [a, b] = zip readme_header [a, b]"
    by (rule make_row_zip) (rule readme_header_plain)
  have g: "get_prop (zip readme_header [a, b]) (js ''barcode'') = Str a"
    "get_prop (zip readme_header [a, b]) (js ''text'') = Str b"
    by (simp_all add: get_prop_def readme_header_def js_def cu_def)
  show ?thesis
    using assms by (simp add: csv_item_of_def z g or_else_def)
qed

lemma readme_batch:
  "csv_batch (map (make_row readme_header) readme_records) =
     [\<lparr>item_barcode = Str (js ''123456789012''), item_text = Str (js ''Prodotto A'')\<rparr>,
      \<lparr>item_barcode = Str (js ''ABCD1234''), item_text = Str (js ''Codice Speciale'')\<rparr>]"
proof -
  have ne: "js ''123456789012'' \<noteq> []" "js ''Prodotto A'' \<noteq> []" "js ''ABCD1234'' \<noteq> []"
    "js ''Codice Speciale'' \<noteq> []"
    by (simp_all add: js_def)
  show ?thesis
    by (simp only: csv_batch_def readme_records_def list.map readme_row [OF ne(1) ne(2)]
        readme_row [OF ne(3) ne(4)])
qed

lemma upper_header_zip:
  "upper_header_row = [(js ''BARCODE'', js ''123456789012''), (js ''TEXT'', js ''Prodotto A'')]"
  by (simp add: upper_header_row_def make_row_def set_prop_def js_def cu_def)

lemma upper_header_entries: "own_entries upper_header_row = upper_header_row"
  by (simp add: own_entries_def upper_header_zip index_key_def array_index_not_digits not_digits)

lemma upper_header_props:
  "get_prop upper_header_row (js ''barcode'') = Undefined"
  "get_prop upper_header_row (js ''Barcode'') = Undefined"
  "get_prop upper_header_row (js ''text'') = Undefined"
  "get_prop upper_header_row (js ''Text'') = Undefined"
  "first_value upper_header_row = Str (js ''123456789012'')"
  by (simp_all add: first_value_def upper_header_entries)
    (simp_all add: get_prop_def upper_header_zip js_def cu_def)

text \<open>
  Claim C9 says that a parsed row takes its code from the field named \<^verbatim>\<open>barcode\<close> and
  its label from the field named \<^verbatim>\<open>text\<close>, in any letter case. Under the header
  \<^verbatim>\<open>BARCODE,TEXT\<close> the label of the row is its code, not the value of the field
  \<^verbatim>\<open>TEXT\<close>.
\<close>

theorem csv_upper_case_header_counterexample:
  "field_ci upper_header_row (js ''text'') = Some (js ''Prodotto A'') \<and>
   spec_label upper_header_row = Str (js ''Prodotto A'') \<and>
   item_text (csv_item_of upper_header_row) = Str (js ''123456789012'') \<and>
   item_text (csv_item_of upper_header_row) \<noteq> spec_label upper_header_row"
proof -
  have f: "field_ci upper_header_row (js ''text'') = Some (js ''Prodotto A'')"
    by (simp add: field_ci_def upper_header_entries)
      (simp add: upper_header_zip js_def cu_def lower_def)
  have t: "item_text (csv_item_of upper_header_row) = Str (js ''123456789012'')"
    by (simp add: csv_item_of_def upper_header_props or_else_def)
  have "js ''123456789012'' \<noteq> js ''Prodotto A''"
    by (simp add: js_def)
  with f t show ?thesis by (simp add: spec_label_def)
qed

text \<open>
  Claim C9, amended. For a record with as many cells as the header has names, the names
  distinct and none of them \<^verbatim>\<open>__proto__\<close>: the parsed row takes its code from the column
  \<^verbatim>\<open>barcode\<close> if its cell is not empty, else from the column \<^verbatim>\<open>Barcode\<close> if its cell
  is not empty, else from the first value of the row object; it takes its label from the
  column \<^verbatim>\<open>text\<close>, else from the column \<^verbatim>\<open>Text\<close>, under the same condition, else it
  is the code. The first value of the row object is the cell of the first column when no
  header name is an array index, and otherwise the cell of the column whose name is the
  least array index. The records are mapped one to one, in order. For the header
  \<^verbatim>\<open>barcode,text\<close> and the two records of the claim, the parsed rows are the two of the
  claim, in that order.
\<close>

theorem csv_item_fields:
  "distinct header \<Longrightarrow> length cells = length header \<Longrightarrow> js ''__proto__'' \<notin> set header \<Longrightarrow>
   item_barcode (csv_item_of (make_row header cells)) =
     (if truthy (column header cells (js ''barcode'')) then column header cells (js ''barcode'')
      else if truthy (column header cells (js ''Barcode'')) then column header cells (js ''Barcode'')
      else first_value (make_row header cells)) \<and>
   item_text (csv_item_of (make_row header cells)) =
     (if truthy (column header cells (js ''text'')) then column header cells (js ''text'')
      else if truthy (column header cells (js ''Text'')) then column header cells (js ''Text'')
      else item_barcode (csv_item_of (make_row header cells))) \<and>
   (list_all (\<lambda>h. array_index h = None) header \<longrightarrow>
      first_value (make_row header cells) = (case cells of [] \<Rightarrow> Undefined | c # _ \<Rightarrow> Str c)) \<and>
   (j < length header \<and> array_index (header ! j) = Some m \<and>
    (\<forall>h\<in>set header. \<forall>n. array_index h = Some n \<longrightarrow> m \<le> n) \<longrightarrow>
      first_value (make_row header cells) = Str (cells ! j)) \<and>
   csv_batch (map (make_row header) records) =
     map (\<lambda>r. csv_item_of (make_row header r)) records \<and>
   csv_batch (map (make_row readme_header) readme_records) =
     [\<lparr>item_barcode = Str (js ''123456789012''), item_text = Str (js ''Prodotto A'')\<rparr>,
      \<lparr>item_barcode = Str (js ''ABCD1234''), item_text = Str (js ''Codice Speciale'')\<rparr>]"
proof -
  assume d: "distinct header" and l: "length cells = length header"
  have a: "item_barcode (csv_item_of (make_row header cells)) =
     (if truthy (column header cells (js ''barcode'')) then column header cells (js ''barcode'')
      else if truthy (column header cells (js ''Barcode'')) then column header cells (js ''Barcode'')
      else first_value (make_row header cells))"
    by (simp add: csv_item_of_def or_else_def get_prop_make_row [OF d])
  have b: "item_text (csv_item_of (make_row header cells)) =
     (if truthy (column header cells (js ''text'')) then column header cells (js ''text'')
      else if truthy (column header cells (js ''Text'')) then column header cells (js ''Text'')
      else item_barcode (csv_item_of (make_row header cells)))"
    by (simp only: item_text_falls_back_to_code) (simp add: or_else_def get_prop_make_row [OF d])
  have c: "list_all (\<lambda>h. array_index h = None) header \<longrightarrow>
      first_value (make_row header cells) = (case cells of [] \<Rightarrow> Undefined | c # _ \<Rightarrow> Str c)"
    using first_value_first_column [OF d l] by blast
  have e: "j < length header \<and> array_index (header ! j) = Some m \<and>
    (\<forall>h\<in>set header. \<forall>n. array_index h = Some n \<longrightarrow> m \<le> n) \<longrightarrow>
      first_value (make_row header cells) = Str (cells ! j)"
    using first_value_least_index [OF d, of j cells m] l by (simp add: make_row_zip [OF d])
  have f: "csv_batch (map (make_row header) records) =
     map (\<lambda>r. csv_item_of (make_row header r)) records"
    by (simp add: csv_batch_def comp_def)
  from a b c e f readme_batch show ?thesis by blast
qed


lemma numbered_header_facts:
  "distinct numbered_header" "js ''__proto__'' \<notin> set numbered_header"
  "length numbered_record = length numbered_header" "(1::nat) < length numbered_header"
  "numbered_header ! 1 = js ''1''" "numbered_record ! 1 = js ''bar''"
  "array_index (numbered_header ! 0) = None"
  by (simp_all add: numbered_header_def numbered_record_def ai_name) (simp_all add: js_def)

lemma numbered_least:
  "\<forall>h\<in>set numbered_header. \<forall>n. array_index h = Some n \<longrightarrow> 1 \<le> n"
  using ai_1 ai_name by (simp add: numbered_header_def)

theorem csv_item_fields_witness:
  "distinct readme_header \<and> js ''__proto__'' \<notin> set readme_header \<and>
   csv_item_of (make_row readme_header [js ''123456789012'', js ''Prodotto A'']) =
     \<lparr>item_barcode = Str (js ''123456789012''), item_text = Str (js ''Prodotto A'')\<rparr> \<and>
   distinct numbered_header \<and> js ''__proto__'' \<notin> set numbered_header \<and>
   array_index (numbered_header ! 1) = Some 1 \<and>
   first_value (make_row numbered_header numbered_record) = Str (js ''bar'') \<and>
   item_barcode (csv_item_of (make_row numbered_header numbered_record)) = Str (js ''bar'')"
proof -
  let ?r = "[js ''123456789012'', js ''Prodotto A'']"
  have l: "length ?r = length readme_header" by (simp add: readme_header_def)
  note w1 = csv_item_fields [OF readme_header_plain(1) l readme_header_plain(2)]
  have c1: "column readme_header ?r (js ''barcode'') = Str (js ''123456789012'')"
    "column readme_header ?r (js ''text'') = Str (js ''Prodotto A'')"
    by (simp_all add: readme_header_def js_def cu_def)
  have b1: "item_barcode (csv_item_of (make_row readme_header ?r)) = Str (js ''123456789012'')"
    using w1 [THEN conjunct1] by (simp add: c1) (simp add: js_def)
  have t1: "item_text (csv_item_of (make_row readme_header ?r)) = Str (js ''Prodotto A'')"
    using w1 [THEN conjunct2, THEN conjunct1] by (simp add: c1) (simp add: js_def)
  have r1: "csv_item_of (make_row readme_header ?r) =
     \<lparr>item_barcode = Str (js ''123456789012''), item_text = Str (js ''Prodotto A'')\<rparr>"
    using b1 t1 by (cases "csv_item_of (make_row readme_header ?r)") simp
  note w2 = csv_item_fields [OF numbered_header_facts(1) numbered_header_facts(3)
      numbered_header_facts(2), of 1 1]
  have ai: "array_index (numbered_header ! 1) = Some 1"
    by (simp only: numbered_header_facts(5) ai_1)
  have f2: "first_value (make_row numbered_header numbered_record) = Str (js ''bar'')"
    using w2 [THEN conjunct2, THEN conjunct2, THEN conjunct2, THEN conjunct1, rule_format,
        OF conjI [OF numbered_header_facts(4) conjI [OF ai numbered_least]]]
    by (simp only: numbered_header_facts(6))
  have c2: "column numbered_header numbered_record (js ''barcode'') = Undefined"
    "column numbered_header numbered_record (js ''Barcode'') = Undefined"
    by (simp_all add: numbered_header_def numbered_record_def js_def cu_def)
  have b2: "item_barcode (csv_item_of (make_row numbered_header numbered_record)) = Str (js ''bar'')"
    using w2 [THEN conjunct1] by (simp add: c2 f2)
  show ?thesis
    using r1 ai f2 b2 by (simp add: readme_header_plain numbered_header_facts)
qed

end
